theory Spec2Isabelle
  imports Complex_Main
begin

section \<open>Order placement of the pre-order food backend\<close>

text \<open>
  The development embeds \<^verbatim>\<open>place_order\<close> of \<^verbatim>\<open>backend/app.py\<close> (the handler of
  \<^verbatim>\<open>POST /api/orders\<close>). Amounts are the \<^verbatim>\<open>Decimal\<close> values the MySQL driver
  returns for price columns; they are modelled as rationals, on which the sums, products
  and the division by 100 of the handler are exact. Timestamps are integers, compared
  only. The four tables the handler touches are lists of rows in table order. An order's
  amounts are the values the handler passes to its \<^verbatim>\<open>INSERT\<close>; the schema is not part of
  the source, so what its column types do to a value on storage is not modelled.
\<close>

subsection \<open>Rows and tables\<close>

record menu_item =
  mi_id :: int
  mi_price :: rat
  mi_name :: string
  mi_is_available :: bool

text \<open>One element of the request's \<^verbatim>\<open>items\<close> list.\<close>

record cart_line =
  menu_item_id :: int
  quantity :: int

record coupon =
  c_id :: int
  c_code :: string
  discount_percentage :: "rat option"
  discount_fixed :: "rat option"
  valid_until :: "int option"
  uses_count :: int
  max_uses :: "int option"
  is_active :: bool

record order =
  o_id :: int
  o_student_id :: int
  o_total_amount :: rat
  o_coupon_code :: "string option"
  o_discount_amount :: rat
  o_final_amount :: rat
  o_status :: string

record order_item =
  oi_order_id :: int
  oi_menu_item_id :: int
  oi_quantity :: int
  oi_price_at_order :: rat

text \<open>An entry of the handler's \<^verbatim>\<open>order_items_data\<close> list.\<close>

record order_item_data =
  d_menu_item_id :: int
  d_quantity :: int
  d_price_at_order :: rat

record db =
  db_menu_items :: "menu_item list"
  db_coupons :: "coupon list"
  db_orders :: "order list"
  db_order_items :: "order_item list"

subsection \<open>The connection and its environment\<close>

text \<open>
  The handler works on one connection with autocommit off: statements change the
  transaction's view, \<^verbatim>\<open>commit\<close> publishes it, \<^verbatim>\<open>rollback\<close> (and closing the
  connection) discards it. What other requests can see after the handler returns is
  \<open>committed\<close>.
\<close>

record conn =
  committed :: db
  pending :: db

definition rollback :: "conn \<Rightarrow> conn" where
  "rollback c = c\<lparr>pending := committed c\<rparr>"

definition commit :: "conn \<Rightarrow> conn" where
  "commit c = c\<lparr>committed := pending c\<rparr>"

text \<open>The database calls of the handler, in the order it makes them.\<close>

datatype stmt =
  SelectMenuItems | SelectCoupon | InsertOrder | InsertOrderItems | UpdateCoupon | Commit

text \<open>
  What the handler does not decide: whether a connection is obtained, which database
  call raises \<^verbatim>\<open>mysql.connector.Error\<close>, the clock, and the id the database assigns to
  the inserted order (\<^verbatim>\<open>cursor.lastrowid\<close>).
\<close>

record env =
  connect_ok :: bool
  raises :: "stmt \<Rightarrow> bool"
  now :: int
  lastrowid :: int

text \<open>The responses of the handler other than 201; the constructor names its message.\<close>

datatype error =
  MissingStudentOrItems      \<comment> \<open>400 \<^verbatim>\<open>Missing student ID or items\<close>\<close>
  | DbConnectionFailed       \<comment> \<open>500 \<^verbatim>\<open>Database connection failed\<close>\<close>
  | NoItems                  \<comment> \<open>400 \<^verbatim>\<open>No items in order\<close>\<close>
  | ItemNotFound int         \<comment> \<open>404 \<^verbatim>\<open>Menu item with ID .. not found\<close>\<close>
  | ItemUnavailable string   \<comment> \<open>400 \<^verbatim>\<open>Item ".." is currently unavailable\<close>\<close>
  | InvalidQuantity int      \<comment> \<open>400 \<^verbatim>\<open>Invalid quantity for item ID ..\<close>\<close>
  | FailedToPlaceOrder       \<comment> \<open>500 \<^verbatim>\<open>Failed to place order\<close>\<close>

subsection \<open>Python truthiness of the request fields\<close>

definition truthy_id :: "int option \<Rightarrow> bool" where
  "truthy_id v = (case v of None \<Rightarrow> False | Some n \<Rightarrow> n \<noteq> 0)"

definition truthy_str :: "string option \<Rightarrow> bool" where
  "truthy_str v = (case v of None \<Rightarrow> False | Some s \<Rightarrow> s \<noteq> [])"

definition truthy_dec :: "rat option \<Rightarrow> bool" where
  "truthy_dec v = (case v of None \<Rightarrow> False | Some d \<Rightarrow> d \<noteq> 0)"

subsection \<open>Step 1: items\<close>

text \<open>\<^verbatim>\<open>SELECT id, price, name, is_available FROM menu_items WHERE id IN (..)\<close>\<close>

definition select_menu_items :: "menu_item list \<Rightarrow> int list \<Rightarrow> menu_item list" where
  "select_menu_items tbl item_ids = filter (\<lambda>r. mi_id r \<in> set item_ids) tbl"

text \<open>\<^verbatim>\<open>{item['id']: item for item in cursor.fetchall()}\<close>: a later row replaces an earlier one.\<close>

definition menu_items_db :: "menu_item list \<Rightarrow> (int \<rightharpoonup> menu_item)" where
  "menu_items_db rows = fold (\<lambda>r m. m(mi_id r \<mapsto> r)) rows Map.empty"

text \<open>
  The loop over \<^verbatim>\<open>items\<close>, with its two accumulators. Each line is looked up, checked for
  availability, then for its quantity; the first failing check ends the loop.
\<close>

fun validate_items ::
  "(int \<rightharpoonup> menu_item) \<Rightarrow> cart_line list \<Rightarrow> rat \<Rightarrow> order_item_data list
    \<Rightarrow> error + (rat \<times> order_item_data list)" where
  "validate_items m [] total_amount order_items_data = Inr (total_amount, order_items_data)"
| "validate_items m (item # items) total_amount order_items_data =
     (case m (menu_item_id item) of
        None \<Rightarrow> Inl (ItemNotFound (menu_item_id item))
      | Some db_item \<Rightarrow>
          if \<not> mi_is_available db_item then Inl (ItemUnavailable (mi_name db_item))
          else if quantity item \<le> 0 then Inl (InvalidQuantity (menu_item_id item))
          else validate_items m items
                 (total_amount + mi_price db_item * of_int (quantity item))
                 (order_items_data @
                    [\<lparr>d_menu_item_id = menu_item_id item, d_quantity = quantity item,
                      d_price_at_order = mi_price db_item\<rparr>]))"

subsection \<open>Step 2: coupon\<close>

text \<open>\<^verbatim>\<open>SELECT .. FROM coupons WHERE code = %s AND is_active = TRUE\<close>, then \<^verbatim>\<open>fetchone()\<close>.\<close>

definition fetch_coupon :: "coupon list \<Rightarrow> string \<Rightarrow> coupon option" where
  "fetch_coupon tbl code = find (\<lambda>c. c_code c = code \<and> is_active c) tbl"

definition coupon_valid :: "int \<Rightarrow> coupon option \<Rightarrow> bool" where
  "coupon_valid t coupon =
     (case coupon of
        None \<Rightarrow> False
      | Some c \<Rightarrow>
          (case valid_until c of None \<Rightarrow> True | Some u \<Rightarrow> t < u) \<and>
          (case max_uses c of None \<Rightarrow> True | Some n \<Rightarrow> uses_count c < n))"

definition coupon_discount :: "rat \<Rightarrow> coupon \<Rightarrow> rat" where
  "coupon_discount total_amount c =
     (if truthy_dec (discount_percentage c)
        then total_amount * (the (discount_percentage c) / 100)
      else if truthy_dec (discount_fixed c)
        then min total_amount (the (discount_fixed c))
      else 0)"

text \<open>
  The coupon block. It yields the handler's \<^verbatim>\<open>coupon_code\<close> and \<^verbatim>\<open>discount_amount\<close>
  after the block and the coupon row whose use step 5 counts
  (\<^verbatim>\<open>coupon_code and valid and coupon\<close>), or the error of the query.
\<close>

definition apply_coupon ::
  "env \<Rightarrow> coupon list \<Rightarrow> string option \<Rightarrow> rat \<Rightarrow> error + (string option \<times> rat \<times> coupon option)" where
  "apply_coupon e tbl coupon_code total_amount =
     (if truthy_str coupon_code then
        if raises e SelectCoupon then Inl FailedToPlaceOrder
        else
          (case fetch_coupon tbl (the coupon_code) of
             None \<Rightarrow> Inr (None, 0, None)
           | Some c \<Rightarrow>
               if coupon_valid (now e) (Some c)
               then Inr (coupon_code, coupon_discount total_amount c, Some c)
               else Inr (None, 0, None))
      else Inr (coupon_code, 0, None))"

subsection \<open>Steps 3 to 5: the writes\<close>

definition insert_order :: "order \<Rightarrow> conn \<Rightarrow> conn" where
  "insert_order row c = c\<lparr>pending := (pending c)\<lparr>db_orders := db_orders (pending c) @ [row]\<rparr>\<rparr>"

definition order_items_values :: "int \<Rightarrow> order_item_data list \<Rightarrow> order_item list" where
  "order_items_values order_id order_items_data =
     map (\<lambda>d. \<lparr>oi_order_id = order_id, oi_menu_item_id = d_menu_item_id d,
               oi_quantity = d_quantity d, oi_price_at_order = d_price_at_order d\<rparr>)
       order_items_data"

definition insert_order_items :: "order_item list \<Rightarrow> conn \<Rightarrow> conn" where
  "insert_order_items rows c =
     c\<lparr>pending := (pending c)\<lparr>db_order_items := db_order_items (pending c) @ rows\<rparr>\<rparr>"

text \<open>\<^verbatim>\<open>UPDATE coupons SET uses_count = uses_count + 1 WHERE id = %s\<close>\<close>

definition increment_uses :: "int \<Rightarrow> coupon list \<Rightarrow> coupon list" where
  "increment_uses cid tbl =
     map (\<lambda>c. if c_id c = cid then c\<lparr>uses_count := uses_count c + 1\<rparr> else c) tbl"

definition update_coupon :: "int \<Rightarrow> conn \<Rightarrow> conn" where
  "update_coupon cid c =
     c\<lparr>pending := (pending c)\<lparr>db_coupons := increment_uses cid (db_coupons (pending c))\<rparr>\<rparr>"

definition persist_order ::
  "env \<Rightarrow> conn \<Rightarrow> int \<Rightarrow> rat \<Rightarrow> string option \<Rightarrow> rat \<Rightarrow> coupon option
    \<Rightarrow> order_item_data list \<Rightarrow> (error + int) \<times> conn" where
  "persist_order e c student_id total_amount coupon_code discount_amount used order_items_data =
     (let final_amount = total_amount - discount_amount in
      if raises e InsertOrder then (Inl FailedToPlaceOrder, rollback c)
      else
        let order_id = lastrowid e;
            c1 = insert_order
                   \<lparr>o_id = order_id, o_student_id = student_id, o_total_amount = total_amount,
                    o_coupon_code = coupon_code, o_discount_amount = discount_amount,
                    o_final_amount = final_amount, o_status = ''Pending''\<rparr> c
        in
        if raises e InsertOrderItems then (Inl FailedToPlaceOrder, rollback c1)
        else
          let c2 = insert_order_items (order_items_values order_id order_items_data) c1 in
          (case used of
             Some cpn \<Rightarrow>
               if raises e UpdateCoupon then (Inl FailedToPlaceOrder, rollback c2)
               else if raises e Commit
                 then (Inl FailedToPlaceOrder, rollback (update_coupon (c_id cpn) c2))
               else (Inr order_id, commit (update_coupon (c_id cpn) c2))
           | None \<Rightarrow>
               if raises e Commit then (Inl FailedToPlaceOrder, rollback c2)
               else (Inr order_id, commit c2)))"

subsection \<open>The handler\<close>

text \<open>The \<^verbatim>\<open>try\<close> block, on an open connection.\<close>

definition place_order_body ::
  "env \<Rightarrow> conn \<Rightarrow> int \<Rightarrow> cart_line list \<Rightarrow> string option \<Rightarrow> (error + int) \<times> conn" where
  "place_order_body e c student_id items coupon_code =
     (let item_ids = map menu_item_id items in
      if item_ids = [] then (Inl NoItems, c)
      else if raises e SelectMenuItems then (Inl FailedToPlaceOrder, rollback c)
      else
        (case validate_items
                (menu_items_db (select_menu_items (db_menu_items (pending c)) item_ids))
                items 0 [] of
           Inl err \<Rightarrow> (Inl err, rollback c)
         | Inr (total_amount, order_items_data) \<Rightarrow>
             (case apply_coupon e (db_coupons (pending c)) coupon_code total_amount of
                Inl err \<Rightarrow> (Inl err, rollback c)
              | Inr (coupon_code', discount_amount, used) \<Rightarrow>
                  persist_order e c student_id total_amount coupon_code' discount_amount
                    used order_items_data)))"

text \<open>
  The whole request: the response and the database as committed once the connection is
  closed. An absent \<^verbatim>\<open>items\<close> key and an empty list are both falsy, so the cart is a
  list.
\<close>

definition place_order ::
  "env \<Rightarrow> db \<Rightarrow> int option \<Rightarrow> cart_line list \<Rightarrow> string option \<Rightarrow> (error + int) \<times> db" where
  "place_order e d student_id items coupon_code =
     (if \<not> truthy_id student_id \<or> items = [] then (Inl MissingStudentOrItems, d)
      else if \<not> connect_ok e then (Inl DbConnectionFailed, d)
      else
        (case place_order_body e \<lparr>committed = d, pending = d\<rparr> (the student_id) items coupon_code of
           (resp, c) \<Rightarrow> (resp, committed c)))"

subsection \<open>A sample database\<close>

text \<open>Concrete data on which the theorems below are instantiated.\<close>

definition demo_menu :: "menu_item list" where
  "demo_menu =
     [\<lparr>mi_id = 1, mi_price = 40, mi_name = ''Samosa'', mi_is_available = True\<rparr>,
      \<lparr>mi_id = 2, mi_price = 60, mi_name = ''Dosa'', mi_is_available = True\<rparr>,
      \<lparr>mi_id = 3, mi_price = 30, mi_name = ''Tea'', mi_is_available = True\<rparr>,
      \<lparr>mi_id = 4, mi_price = 25, mi_name = ''Lassi'', mi_is_available = False\<rparr>]"

definition demo_coupons :: "coupon list" where
  "demo_coupons =
     [\<lparr>c_id = 1, c_code = ''SAVE10'', discount_percentage = Some 10, discount_fixed = None,
       valid_until = None, uses_count = 0, max_uses = None, is_active = True\<rparr>,
      \<lparr>c_id = 2, c_code = ''FLAT50'', discount_percentage = None, discount_fixed = Some 50,
       valid_until = Some 2000, uses_count = 3, max_uses = Some 5, is_active = True\<rparr>,
      \<lparr>c_id = 3, c_code = ''OLD20'', discount_percentage = Some 20, discount_fixed = None,
       valid_until = Some 500, uses_count = 0, max_uses = None, is_active = True\<rparr>,
      \<lparr>c_id = 4, c_code = ''ONCE'', discount_percentage = Some 50, discount_fixed = None,
       valid_until = None, uses_count = 1, max_uses = Some 1, is_active = True\<rparr>]"

definition demo_db :: db where
  "demo_db = \<lparr>db_menu_items = demo_menu, db_coupons = demo_coupons, db_orders = [],
              db_order_items = []\<rparr>"

definition demo_env :: env where
  "demo_env = \<lparr>connect_ok = True, raises = (\<lambda>s. False), now = 1000, lastrowid = 1\<rparr>"

definition line :: "int \<Rightarrow> int \<Rightarrow> cart_line" where
  "line i q = \<lparr>menu_item_id = i, quantity = q\<rparr>"

section \<open>Properties of the handler\<close>

subsection \<open>The catalogue dictionary\<close>

lemma find_append_eq:
  "find P (xs @ ys) = (case find P xs of None \<Rightarrow> find P ys | Some x \<Rightarrow> Some x)"
  by (induction xs) auto

lemma find_SomeD: "find P xs = Some x \<Longrightarrow> x \<in> set xs \<and> P x"
  by (induction xs) (auto split: if_splits)

lemma fold_upd_find:
  "fold (\<lambda>r m. m(mi_id r \<mapsto> r)) rows m0 i =
     (case find (\<lambda>r. mi_id r = i) (rev rows) of None \<Rightarrow> m0 i | Some r \<Rightarrow> Some r)"
proof (induction rows arbitrary: m0)
  case Nil
  show ?case by simp
next
  case (Cons r rows)
  have "fold (\<lambda>r m. m(mi_id r \<mapsto> r)) (r # rows) m0 i =
      fold (\<lambda>r m. m(mi_id r \<mapsto> r)) rows (m0(mi_id r \<mapsto> r)) i"
    by simp
  also have "\<dots> = (case find (\<lambda>r. mi_id r = i) (rev rows) of
      None \<Rightarrow> (m0(mi_id r \<mapsto> r)) i | Some r \<Rightarrow> Some r)"
    by (rule Cons.IH)
  also have "\<dots> = (case find (\<lambda>r. mi_id r = i) (rev (r # rows)) of
      None \<Rightarrow> m0 i | Some r \<Rightarrow> Some r)"
    by (simp add: find_append_eq split: option.splits)
  finally show ?case .
qed

lemma menu_items_db_find:
  "menu_items_db rows i = find (\<lambda>r. mi_id r = i) (rev rows)"
  by (simp add: menu_items_db_def fold_upd_find split: option.splits)

lemma find_filter_conj: "find Q (filter P xs) = find (\<lambda>x. P x \<and> Q x) xs"
  by (induction xs) auto

lemma menu_items_db_select:
  "menu_items_db (select_menu_items tbl ids) i =
     (if i \<in> set ids then menu_items_db tbl i else None)"
proof (cases "i \<in> set ids")
  case True
  have "find (\<lambda>r. mi_id r \<in> set ids \<and> mi_id r = i) (rev tbl) = find (\<lambda>r. mi_id r = i) (rev tbl)"
    using True by (intro find_cong) auto
  then show ?thesis
    using True by (simp add: menu_items_db_find select_menu_items_def rev_filter find_filter_conj)
next
  case False
  have "find (\<lambda>r. mi_id r \<in> set ids \<and> mi_id r = i) (rev tbl) = None"
    using False by (auto simp: find_None_iff)
  then show ?thesis
    using False by (simp add: menu_items_db_find select_menu_items_def rev_filter find_filter_conj)
qed

lemma menu_items_db_SomeD:
  "menu_items_db tbl i = Some r \<Longrightarrow> r \<in> set tbl \<and> mi_id r = i"
  by (auto simp: menu_items_db_find dest: find_SomeD)

lemma menu_items_db_None_iff:
  "menu_items_db tbl i = None \<longleftrightarrow> (\<forall>r\<in>set tbl. mi_id r \<noteq> i)"
  by (auto simp: menu_items_db_find find_None_iff)

lemma validate_items_cong:
  "(\<forall>l\<in>set items. m (menu_item_id l) = m' (menu_item_id l)) \<Longrightarrow>
     validate_items m items t acc = validate_items m' items t acc"
  by (induction items arbitrary: t acc) (auto split: option.splits)

lemma validate_items_Inr:
  "validate_items m items t acc = Inr (t', acc') \<Longrightarrow>
     (\<forall>l\<in>set items. \<exists>r. m (menu_item_id l) = Some r \<and> mi_is_available r \<and> 0 < quantity l) \<and>
     t' = t + (\<Sum>l\<leftarrow>items. mi_price (the (m (menu_item_id l))) * of_int (quantity l)) \<and>
     acc' = acc @ map (\<lambda>l. \<lparr>d_menu_item_id = menu_item_id l, d_quantity = quantity l,
                           d_price_at_order = mi_price (the (m (menu_item_id l)))\<rparr>) items"
proof (induction items arbitrary: t acc)
  case Nil
  then show ?case by simp
next
  case (Cons l items)
  from Cons.prems obtain r where r: "m (menu_item_id l) = Some r" "mi_is_available r"
      "0 < quantity l"
    and rest: "validate_items m items (t + mi_price r * of_int (quantity l))
        (acc @ [\<lparr>d_menu_item_id = menu_item_id l, d_quantity = quantity l,
                 d_price_at_order = mi_price r\<rparr>]) = Inr (t', acc')"
    by (auto split: option.splits if_splits)
  from Cons.IH [OF rest] r show ?case
    by (simp add: algebra_simps)
qed

lemma validate_items_ok:
  "(\<forall>l\<in>set items. \<exists>r. m (menu_item_id l) = Some r \<and> mi_is_available r \<and> 0 < quantity l) \<Longrightarrow>
     validate_items m items t acc =
       Inr (t + (\<Sum>l\<leftarrow>items. mi_price (the (m (menu_item_id l))) * of_int (quantity l)),
            acc @ map (\<lambda>l. \<lparr>d_menu_item_id = menu_item_id l, d_quantity = quantity l,
                           d_price_at_order = mi_price (the (m (menu_item_id l)))\<rparr>) items)"
proof (induction items arbitrary: t acc)
  case Nil
  then show ?case by simp
next
  case (Cons l items)
  then show ?case
    by (auto simp: algebra_simps)
qed


lemma validate_items_append:
  "validate_items m (xs @ ys) t acc =
     (case validate_items m xs t acc of
        Inl err \<Rightarrow> Inl err
      | Inr (t', acc') \<Rightarrow> validate_items m ys t' acc')"
  by (induction xs arbitrary: t acc) (auto split: option.splits)

lemma validate_items_select:
  "validate_items (menu_items_db (select_menu_items tbl (map menu_item_id items))) items t acc =
     validate_items (menu_items_db tbl) items t acc"
  by (rule validate_items_cong) (simp add: menu_items_db_select)

lemma persist_order_Inl:
  "persist_order e c sid tot code disc used data = (Inl err, c') \<Longrightarrow>
     committed c' = committed c \<and> err = FailedToPlaceOrder"
  by (auto simp: persist_order_def Let_def rollback_def commit_def insert_order_def
        insert_order_items_def update_coupon_def split: if_splits option.splits)

lemma persist_order_Inr:
  assumes "persist_order e c sid tot code disc used data = (Inr oid, c')"
  shows "oid = lastrowid e"
    and "db_menu_items (committed c') = db_menu_items (pending c)"
    and "db_orders (committed c') = db_orders (pending c) @
          [\<lparr>o_id = oid, o_student_id = sid, o_total_amount = tot, o_coupon_code = code,
            o_discount_amount = disc, o_final_amount = tot - disc, o_status = ''Pending''\<rparr>]"
    and "db_order_items (committed c') = db_order_items (pending c) @ order_items_values oid data"
    and "db_coupons (committed c') =
          (case used of None \<Rightarrow> db_coupons (pending c)
           | Some cpn \<Rightarrow> increment_uses (c_id cpn) (db_coupons (pending c)))"
  using assms
  by (auto simp: persist_order_def Let_def rollback_def commit_def insert_order_def
        insert_order_items_def update_coupon_def split: if_splits option.splits)

lemma persist_order_ok:
  assumes "\<not> raises e InsertOrder" "\<not> raises e InsertOrderItems"
    "\<not> raises e UpdateCoupon" "\<not> raises e Commit"
  shows "fst (persist_order e c sid tot code disc used data) = Inr (lastrowid e)"
  using assms by (simp add: persist_order_def Let_def split: option.splits)

lemma place_order_Inl:
  assumes "place_order e d sid items code = (Inl err, d')"
  shows "d' = d"
  using assms
  by (auto simp: place_order_def place_order_body_def Let_def rollback_def
        split: if_splits sum.splits prod.splits dest: persist_order_Inl)

lemma place_order_Inr:
  assumes "place_order e d sid items code = (Inr oid, d')"
  shows "\<exists>tot data code' disc used.
      validate_items (menu_items_db (db_menu_items d)) items 0 [] = Inr (tot, data) \<and>
      apply_coupon e (db_coupons d) code tot = Inr (code', disc, used) \<and>
      oid = lastrowid e \<and>
      db_menu_items d' = db_menu_items d \<and>
      db_orders d' = db_orders d @
        [\<lparr>o_id = oid, o_student_id = the sid, o_total_amount = tot, o_coupon_code = code',
          o_discount_amount = disc, o_final_amount = tot - disc, o_status = ''Pending''\<rparr>] \<and>
      db_order_items d' = db_order_items d @ order_items_values oid data \<and>
      db_coupons d' =
        (case used of None \<Rightarrow> db_coupons d | Some cpn \<Rightarrow> increment_uses (c_id cpn) (db_coupons d))"
proof -
  let ?c = "\<lparr>committed = d, pending = d\<rparr>"
  from assms obtain c' where body: "place_order_body e ?c (the sid) items code = (Inr oid, c')"
    and d': "d' = committed c'"
    by (auto simp: place_order_def split: if_splits prod.splits)
  from body obtain tot data where
    v: "validate_items (menu_items_db (db_menu_items d)) items 0 [] = Inr (tot, data)"
    and rest: "(case apply_coupon e (db_coupons d) code tot of
                  Inl err \<Rightarrow> (Inl err, rollback ?c)
                | Inr (code', disc, used) \<Rightarrow>
                    persist_order e ?c (the sid) tot code' disc used data) = (Inr oid, c')"
    by (auto simp: place_order_body_def Let_def validate_items_select
          split: if_splits sum.splits prod.splits)
  from rest obtain code' disc used where
    a: "apply_coupon e (db_coupons d) code tot = Inr (code', disc, used)"
    and p: "persist_order e ?c (the sid) tot code' disc used data = (Inr oid, c')"
    by (auto split: sum.splits prod.splits)
  from persist_order_Inr [OF p] v a d' show ?thesis
    by (simp split: option.splits)
qed

lemma place_order_validation_error:
  assumes "truthy_id sid" "items \<noteq> []" "connect_ok e" "\<not> raises e SelectMenuItems"
    and "validate_items (menu_items_db (db_menu_items d)) items 0 [] = Inl err"
  shows "place_order e d sid items code = (Inl err, d)"
  using assms
  by (simp add: place_order_def place_order_body_def Let_def validate_items_select rollback_def)

lemma place_order_ok:
  assumes "truthy_id sid" "items \<noteq> []" "connect_ok e" "\<forall>s. \<not> raises e s"
    and "validate_items (menu_items_db (db_menu_items d)) items 0 [] = Inr (tot, data)"
  shows "fst (place_order e d sid items code) = Inr (lastrowid e)"
proof -
  from assms(4) have "\<exists>r. apply_coupon e (db_coupons d) code tot = Inr r"
    by (simp add: apply_coupon_def split: option.splits)
  then obtain r where "apply_coupon e (db_coupons d) code tot = Inr r" ..
  then show ?thesis
    using assms
    by (cases r)
      (simp add: place_order_def place_order_body_def Let_def validate_items_select
        persist_order_ok split_beta)
qed

subsection \<open>The coupon step\<close>

lemma fetch_coupon_SomeD:
  "fetch_coupon tbl s = Some c \<Longrightarrow> c \<in> set tbl \<and> c_code c = s \<and> is_active c"
  unfolding fetch_coupon_def by (auto dest: find_SomeD)

lemma fetch_coupon_distinct:
  assumes "distinct (map c_code tbl)" "c \<in> set tbl"
  shows "fetch_coupon tbl (c_code c) = (if is_active c then Some c else None)"
  using assms unfolding fetch_coupon_def
  by (induction tbl) (auto simp: image_iff find_None_iff)

lemma apply_coupon_Inr:
  assumes "apply_coupon e tbl code tot = Inr (code', disc, used)"
  shows "(truthy_str code \<and> coupon_valid (now e) (fetch_coupon tbl (the code)) \<and>
            code' = code \<and> used = fetch_coupon tbl (the code) \<and>
            disc = coupon_discount tot (the (fetch_coupon tbl (the code)))) \<or>
         (truthy_str code \<and> \<not> coupon_valid (now e) (fetch_coupon tbl (the code)) \<and>
            code' = None \<and> used = None \<and> disc = 0) \<or>
         (\<not> truthy_str code \<and> code' = code \<and> used = None \<and> disc = 0)"
  using assms
  by (auto simp: apply_coupon_def coupon_valid_def split: if_splits option.splits)

lemma coupon_valid_SomeD:
  "coupon_valid t r = True \<Longrightarrow> \<exists>c. r = Some c"
  by (cases r) (auto simp: coupon_valid_def)

lemma coupon_discount_bounds:
  assumes "0 \<le> tot"
    and "\<forall>p. discount_percentage c = Some p \<longrightarrow> 0 \<le> p \<and> p \<le> 100"
    and "\<forall>f. discount_fixed c = Some f \<longrightarrow> 0 \<le> f"
  shows "0 \<le> coupon_discount tot c \<and> coupon_discount tot c \<le> tot"
proof (cases "truthy_dec (discount_percentage c)")
  case True
  then obtain p where p: "discount_percentage c = Some p"
    by (auto simp: truthy_dec_def split: option.splits)
  with assms(2) have q: "0 \<le> p / 100" "p / 100 \<le> 1" by auto
  from assms(1) q(1) have lo: "0 \<le> tot * (p / 100)"
    by (rule mult_nonneg_nonneg)
  from q(2) assms(1) have "tot * (p / 100) \<le> tot * 1"
    by (rule mult_left_mono)
  with lo True p show ?thesis by (simp add: coupon_discount_def)
next
  case False
  show ?thesis
  proof (cases "truthy_dec (discount_fixed c)")
    case True
    then obtain f where f: "discount_fixed c = Some f"
      by (auto simp: truthy_dec_def split: option.splits)
    with assms(1,3) \<open>\<not> truthy_dec (discount_percentage c)\<close> True show ?thesis
      by (simp add: coupon_discount_def)
  next
    case False
    with assms(1) \<open>\<not> truthy_dec (discount_percentage c)\<close> show ?thesis
      by (simp add: coupon_discount_def)
  qed
qed

lemma validate_items_total_nonneg:
  assumes "validate_items (menu_items_db tbl) items 0 [] = Inr (tot, data)"
    and "\<forall>r\<in>set tbl. 0 \<le> mi_price r"
  shows "0 \<le> tot"
proof -
  note vi = validate_items_Inr [OF assms(1)]
  have "0 \<le> mi_price (the (menu_items_db tbl (menu_item_id l))) * of_int (quantity l)"
    if "l \<in> set items" for l
  proof -
    from vi that obtain r where r: "menu_items_db tbl (menu_item_id l) = Some r" "0 < quantity l"
      by blast
    with menu_items_db_SomeD [OF r(1)] assms(2) show ?thesis by simp
  qed
  then have "0 \<le> (\<Sum>l\<leftarrow>items. mi_price (the (menu_items_db tbl (menu_item_id l))) * of_int (quantity l))"
    by (intro sum_list_nonneg) auto
  with vi show ?thesis by simp
qed


lemma cart_resolves:
  assumes "\<forall>l\<in>set items.
      (\<exists>r\<in>set tbl. mi_id r = menu_item_id l) \<and>
      (\<forall>r\<in>set tbl. mi_id r = menu_item_id l \<longrightarrow> mi_is_available r) \<and> 0 < quantity l"
  shows "\<forall>l\<in>set items. \<exists>r. menu_items_db tbl (menu_item_id l) = Some r \<and>
      mi_is_available r \<and> 0 < quantity l"
proof
  fix l assume l: "l \<in> set items"
  with assms have "menu_items_db tbl (menu_item_id l) \<noteq> None"
    by (auto simp: menu_items_db_None_iff)
  then obtain r where r: "menu_items_db tbl (menu_item_id l) = Some r" by blast
  from menu_items_db_SomeD [OF r] assms l have "mi_is_available r \<and> 0 < quantity l"
    by blast
  with r show "\<exists>r. menu_items_db tbl (menu_item_id l) = Some r \<and>
      mi_is_available r \<and> 0 < quantity l" by blast
qed

lemma no_valid_coupon:
  assumes "\<forall>c\<in>set tbl. c_code c = s \<longrightarrow>
           \<not> is_active c \<or>
           (\<exists>u. valid_until c = Some u \<and> u \<le> t) \<or>
           (\<exists>n. max_uses c = Some n \<and> n \<le> uses_count c)"
  shows "\<not> coupon_valid t (fetch_coupon tbl s)"
proof (cases "fetch_coupon tbl s")
  case None
  then show ?thesis by (simp add: coupon_valid_def)
next
  case (Some c)
  from fetch_coupon_SomeD [OF Some] assms
  have "(\<exists>u. valid_until c = Some u \<and> u \<le> t) \<or>
        (\<exists>n. max_uses c = Some n \<and> n \<le> uses_count c)"
    by blast
  with Some show ?thesis by (auto simp: coupon_valid_def)
qed

subsection \<open>Requests that fail validation\<close>

lemma place_order_fails_unchanged:
  assumes "\<exists>l\<in>set items. \<not> (\<exists>r. menu_items_db (db_menu_items d) (menu_item_id l) = Some r \<and>
      mi_is_available r \<and> 0 < quantity l)"
  shows "\<exists>err. place_order e d sid items code = (Inl err, d)"
proof (cases "place_order e d sid items code")
  case (Pair resp d')
  show ?thesis
  proof (cases resp)
    case (Inl err)
    with Pair place_order_Inl [of e d sid items code err d'] show ?thesis by simp
  next
    case (Inr oid)
    with Pair have "place_order e d sid items code = (Inr oid, d')" by simp
    from place_order_Inr [OF this] obtain tot data where
      "validate_items (menu_items_db (db_menu_items d)) items 0 [] = Inr (tot, data)"
      by blast
    from validate_items_Inr [OF this] assms show ?thesis by blast
  qed
qed

lemma validate_items_first_failure:
  assumes "\<forall>l'\<in>set pre. \<exists>r. m (menu_item_id l') = Some r \<and> mi_is_available r \<and> 0 < quantity l'"
  shows "validate_items m (pre @ l # post) 0 [] =
     (case m (menu_item_id l) of
        None \<Rightarrow> Inl (ItemNotFound (menu_item_id l))
      | Some r \<Rightarrow>
          if \<not> mi_is_available r then Inl (ItemUnavailable (mi_name r))
          else if quantity l \<le> 0 then Inl (InvalidQuantity (menu_item_id l))
          else validate_items m (l # post)
                 (\<Sum>l\<leftarrow>pre. mi_price (the (m (menu_item_id l))) * of_int (quantity l))
                 (map (\<lambda>l. \<lparr>d_menu_item_id = menu_item_id l, d_quantity = quantity l,
                           d_price_at_order = mi_price (the (m (menu_item_id l)))\<rparr>) pre))"
  unfolding validate_items_append validate_items_ok [OF assms]
  by (simp split: option.splits)

subsection \<open>Evaluation on the sample database\<close>

lemmas model_defs =
  place_order_def place_order_body_def persist_order_def apply_coupon_def fetch_coupon_def
  coupon_valid_def coupon_discount_def truthy_id_def truthy_str_def truthy_dec_def
  select_menu_items_def menu_items_db_def insert_order_def insert_order_items_def
  order_items_values_def increment_uses_def update_coupon_def rollback_def commit_def Let_def

lemmas demo_defs = demo_menu_def demo_coupons_def demo_db_def demo_env_def line_def

lemma demo_plain:
  "place_order demo_env demo_db (Some 7) [line 1 2, line 2 1, line 1 1] None =
    (Inr 1, demo_db\<lparr>db_orders := [\<lparr>o_id = 1, o_student_id = 7, o_total_amount = 180,
        o_coupon_code = None, o_discount_amount = 0, o_final_amount = 180, o_status = ''Pending''\<rparr>],
      db_order_items := [
        \<lparr>oi_order_id = 1, oi_menu_item_id = 1, oi_quantity = 2, oi_price_at_order = 40\<rparr>,
        \<lparr>oi_order_id = 1, oi_menu_item_id = 2, oi_quantity = 1, oi_price_at_order = 60\<rparr>,
        \<lparr>oi_order_id = 1, oi_menu_item_id = 1, oi_quantity = 1, oi_price_at_order = 40\<rparr>]\<rparr>)"
  by (simp add: model_defs demo_defs)

lemma demo_save10:
  "place_order demo_env demo_db (Some 7) [line 1 2, line 2 2] (Some ''SAVE10'') =
    (Inr 1, demo_db\<lparr>
      db_coupons := increment_uses 1 demo_coupons,
      db_orders := [\<lparr>o_id = 1, o_student_id = 7, o_total_amount = 200,
        o_coupon_code = Some ''SAVE10'', o_discount_amount = 20, o_final_amount = 180,
        o_status = ''Pending''\<rparr>],
      db_order_items := [
        \<lparr>oi_order_id = 1, oi_menu_item_id = 1, oi_quantity = 2, oi_price_at_order = 40\<rparr>,
        \<lparr>oi_order_id = 1, oi_menu_item_id = 2, oi_quantity = 2, oi_price_at_order = 60\<rparr>]\<rparr>)"
  by (simp add: model_defs demo_defs)

lemma demo_flat50:
  "place_order demo_env demo_db (Some 7) [line 3 1] (Some ''FLAT50'') =
    (Inr 1, demo_db\<lparr>
      db_coupons := increment_uses 2 demo_coupons,
      db_orders := [\<lparr>o_id = 1, o_student_id = 7, o_total_amount = 30,
        o_coupon_code = Some ''FLAT50'', o_discount_amount = 30, o_final_amount = 0,
        o_status = ''Pending''\<rparr>],
      db_order_items := [
        \<lparr>oi_order_id = 1, oi_menu_item_id = 3, oi_quantity = 1, oi_price_at_order = 30\<rparr>]\<rparr>)"
  by (simp add: model_defs demo_defs)

lemma demo_once:
  "place_order demo_env demo_db (Some 7) [line 1 2] (Some ''ONCE'') =
    (Inr 1, demo_db\<lparr>
      db_orders := [\<lparr>o_id = 1, o_student_id = 7, o_total_amount = 80,
        o_coupon_code = None, o_discount_amount = 0, o_final_amount = 80,
        o_status = ''Pending''\<rparr>],
      db_order_items := [
        \<lparr>oi_order_id = 1, oi_menu_item_id = 1, oi_quantity = 2, oi_price_at_order = 40\<rparr>]\<rparr>)"
  by (simp add: model_defs demo_defs)

lemma demo_prices_nonneg: "\<forall>r\<in>set (db_menu_items demo_db). 0 \<le> mi_price r"
  by (simp add: demo_defs)

lemma demo_coupons_in_range:
  "\<forall>c\<in>set (db_coupons demo_db).
     (\<forall>p. discount_percentage c = Some p \<longrightarrow> 0 \<le> p \<and> p \<le> 100) \<and>
     (\<forall>f. discount_fixed c = Some f \<longrightarrow> 0 \<le> f)"
  by (simp add: demo_defs)

lemma demo_empty_code:
  "place_order demo_env demo_db (Some 7) [line 1 2] (Some '''') =
    (Inr 1, demo_db\<lparr>
      db_orders := [\<lparr>o_id = 1, o_student_id = 7, o_total_amount = 80,
        o_coupon_code = Some '''', o_discount_amount = 0, o_final_amount = 80,
        o_status = ''Pending''\<rparr>],
      db_order_items := [
        \<lparr>oi_order_id = 1, oi_menu_item_id = 1, oi_quantity = 2, oi_price_at_order = 40\<rparr>]\<rparr>)"
  by (simp add: model_defs demo_defs)

lemma demo_codes_distinct: "distinct (map c_code (db_coupons demo_db))"
  by (simp add: demo_defs)

lemma demo_unavailable_first:
  "place_order demo_env demo_db (Some 7) [line 4 1, line 99 1] None =
     (Inl (ItemUnavailable ''Lassi''), demo_db)"
  by (simp add: model_defs demo_defs)

lemma demo_unknown_zero:
  "place_order demo_env demo_db (Some 7) [line 99 0] None = (Inl (ItemNotFound 99), demo_db)"
  by (simp add: model_defs demo_defs)

lemma demo_commit_fails:
  "place_order (demo_env\<lparr>raises := (\<lambda>st. st = Commit)\<rparr>) demo_db (Some 7)
      [line 1 2, line 2 2] (Some ''SAVE10'') = (Inl FailedToPlaceOrder, demo_db)"
  by (simp add: model_defs demo_defs)

section \<open>The claims\<close>

text \<open>
  C6: on every successful order the subtotal is the sum over the cart lines of the
  catalogue price read at order time times the quantity, and every cart line, also a
  repeated menu item, yields its own order line carrying that price.
\<close>

theorem order_lines_and_subtotal:
  assumes "place_order e d sid items code = (Inr oid, d')"
  shows "\<exists>ord. db_orders d' = db_orders d @ [ord] \<and>
      o_total_amount ord =
        (\<Sum>l\<leftarrow>items. mi_price (the (menu_items_db (db_menu_items d) (menu_item_id l)))
                      * of_int (quantity l)) \<and>
      db_order_items d' = db_order_items d @
        map (\<lambda>l. \<lparr>oi_order_id = oid, oi_menu_item_id = menu_item_id l,
                  oi_quantity = quantity l,
                  oi_price_at_order =
                    mi_price (the (menu_items_db (db_menu_items d) (menu_item_id l)))\<rparr>) items \<and>
      (\<forall>l\<in>set items. \<exists>r\<in>set (db_menu_items d). mi_id r = menu_item_id l \<and>
          menu_items_db (db_menu_items d) (menu_item_id l) = Some r)"
proof -
  from place_order_Inr [OF assms] obtain tot data code' disc used where
    v: "validate_items (menu_items_db (db_menu_items d)) items 0 [] = Inr (tot, data)"
    and o: "db_orders d' = db_orders d @
        [\<lparr>o_id = oid, o_student_id = the sid, o_total_amount = tot, o_coupon_code = code',
          o_discount_amount = disc, o_final_amount = tot - disc, o_status = ''Pending''\<rparr>]"
    and i: "db_order_items d' = db_order_items d @ order_items_values oid data"
    by blast
  note vi = validate_items_Inr [OF v]
  have rows: "\<forall>l\<in>set items. \<exists>r\<in>set (db_menu_items d). mi_id r = menu_item_id l \<and>
          menu_items_db (db_menu_items d) (menu_item_id l) = Some r"
    using vi menu_items_db_SomeD by blast
  from vi have "order_items_values oid data =
      map (\<lambda>l. \<lparr>oi_order_id = oid, oi_menu_item_id = menu_item_id l,
                  oi_quantity = quantity l,
                  oi_price_at_order =
                    mi_price (the (menu_items_db (db_menu_items d) (menu_item_id l)))\<rparr>) items"
    by (simp add: order_items_values_def comp_def)
  with o i vi rows show ?thesis
    by simp
qed

theorem order_lines_and_subtotal_witness:
  "place_order demo_env demo_db (Some 7) [line 1 2, line 2 1, line 1 1] None =
    (Inr 1, demo_db\<lparr>db_orders := [\<lparr>o_id = 1, o_student_id = 7, o_total_amount = 180,
        o_coupon_code = None, o_discount_amount = 0, o_final_amount = 180, o_status = ''Pending''\<rparr>],
      db_order_items := [
        \<lparr>oi_order_id = 1, oi_menu_item_id = 1, oi_quantity = 2, oi_price_at_order = 40\<rparr>,
        \<lparr>oi_order_id = 1, oi_menu_item_id = 2, oi_quantity = 1, oi_price_at_order = 60\<rparr>,
        \<lparr>oi_order_id = 1, oi_menu_item_id = 1, oi_quantity = 1, oi_price_at_order = 40\<rparr>]\<rparr>) \<and>
   (\<Sum>l\<leftarrow>[line 1 2, line 2 1, line 1 1].
       mi_price (the (menu_items_db (db_menu_items demo_db) (menu_item_id l)))
         * of_int (quantity l)) = 180"
proof -
  from order_lines_and_subtotal [OF demo_plain] show ?thesis
    using demo_plain by (simp add: demo_db_def line_def)
qed

text \<open>
  C1: every successfully placed order records
  \<open>final_amount = total_amount - discount_amount\<close> with
  \<open>0 \<le> discount_amount \<le> total_amount\<close>, hence a final amount that is not negative,
  when catalogue prices are not negative and every coupon field that is set is in its
  range (a percentage within 0 to 100, a fixed amount of at least 0). That the lines have
  positive quantities over available items follows from the success of the order.
\<close>

theorem amounts_invariant:
  assumes "place_order e d sid items code = (Inr oid, d')"
    and "\<forall>r\<in>set (db_menu_items d). 0 \<le> mi_price r"
    and "\<forall>c\<in>set (db_coupons d).
           (\<forall>p. discount_percentage c = Some p \<longrightarrow> 0 \<le> p \<and> p \<le> 100) \<and>
           (\<forall>f. discount_fixed c = Some f \<longrightarrow> 0 \<le> f)"
  shows "\<exists>ord. db_orders d' = db_orders d @ [ord] \<and>
      o_final_amount ord = o_total_amount ord - o_discount_amount ord \<and>
      0 \<le> o_discount_amount ord \<and> o_discount_amount ord \<le> o_total_amount ord \<and>
      0 \<le> o_final_amount ord"
proof -
  from place_order_Inr [OF assms(1)] obtain tot data code' disc used where
    v: "validate_items (menu_items_db (db_menu_items d)) items 0 [] = Inr (tot, data)"
    and a: "apply_coupon e (db_coupons d) code tot = Inr (code', disc, used)"
    and o: "db_orders d' = db_orders d @
        [\<lparr>o_id = oid, o_student_id = the sid, o_total_amount = tot, o_coupon_code = code',
          o_discount_amount = disc, o_final_amount = tot - disc, o_status = ''Pending''\<rparr>]"
    by blast
  from validate_items_total_nonneg [OF v assms(2)] have tot: "0 \<le> tot" .
  have "0 \<le> disc \<and> disc \<le> tot"
  proof (cases "disc = 0")
    case True
    with tot show ?thesis by simp
  next
    case False
    with apply_coupon_Inr [OF a] have valid: "coupon_valid (now e) (fetch_coupon (db_coupons d) (the code))"
      and disc: "disc = coupon_discount tot (the (fetch_coupon (db_coupons d) (the code)))"
      by auto
    from valid obtain c where c: "fetch_coupon (db_coupons d) (the code) = Some c"
      using coupon_valid_SomeD by blast
    from fetch_coupon_SomeD [OF c] assms(3)
    have "(\<forall>p. discount_percentage c = Some p \<longrightarrow> 0 \<le> p \<and> p \<le> 100) \<and>
          (\<forall>f. discount_fixed c = Some f \<longrightarrow> 0 \<le> f)"
      by blast
    with coupon_discount_bounds [OF tot, of c] disc c show ?thesis by simp
  qed
  with o show ?thesis by simp
qed

theorem amounts_invariant_witness:
  "place_order demo_env demo_db (Some 7) [line 1 2, line 2 2] (Some ''SAVE10'') =
    (Inr 1, demo_db\<lparr>
      db_coupons := increment_uses 1 demo_coupons,
      db_orders := [\<lparr>o_id = 1, o_student_id = 7, o_total_amount = 200,
        o_coupon_code = Some ''SAVE10'', o_discount_amount = 20, o_final_amount = 180,
        o_status = ''Pending''\<rparr>],
      db_order_items := [
        \<lparr>oi_order_id = 1, oi_menu_item_id = 1, oi_quantity = 2, oi_price_at_order = 40\<rparr>,
        \<lparr>oi_order_id = 1, oi_menu_item_id = 2, oi_quantity = 2, oi_price_at_order = 60\<rparr>]\<rparr>) \<and>
   (180::rat) = 200 - 20 \<and> (0::rat) \<le> 20 \<and> (20::rat) \<le> 200 \<and> (0::rat) \<le> 180"
  using amounts_invariant [OF demo_save10 demo_prices_nonneg demo_coupons_in_range] demo_save10
  by (simp add: demo_db_def)

text \<open>
  C3: when the supplied coupon is found and valid, the discount is the subtotal times the
  percentage over 100 if a percentage is set, the smaller of subtotal and fixed amount if
  a fixed amount is set, and 0 if neither is set; the coupon sets at most one of the two
  and catalogue prices are not negative. The witness carries the two examples: 10 percent
  of 200 gives 20 and 180, a fixed 50 on 30 gives 30 and 0.
\<close>

theorem discount_formula:
  assumes "place_order e d sid items (Some s) = (Inr oid, d')"
    and "s \<noteq> []"
    and "fetch_coupon (db_coupons d) s = Some c"
    and "coupon_valid (now e) (Some c)"
    and "discount_percentage c = None \<or> discount_fixed c = None"
    and "\<forall>r\<in>set (db_menu_items d). 0 \<le> mi_price r"
  shows "\<exists>ord. db_orders d' = db_orders d @ [ord] \<and>
      o_discount_amount ord =
        (case discount_percentage c of
           Some p \<Rightarrow> o_total_amount ord * p / 100
         | None \<Rightarrow>
             (case discount_fixed c of
                Some f \<Rightarrow> min (o_total_amount ord) f
              | None \<Rightarrow> 0)) \<and>
      o_final_amount ord = o_total_amount ord - o_discount_amount ord"
proof -
  from place_order_Inr [OF assms(1)] obtain tot data code' disc used where
    v: "validate_items (menu_items_db (db_menu_items d)) items 0 [] = Inr (tot, data)"
    and a: "apply_coupon e (db_coupons d) (Some s) tot = Inr (code', disc, used)"
    and o: "db_orders d' = db_orders d @
        [\<lparr>o_id = oid, o_student_id = the sid, o_total_amount = tot, o_coupon_code = code',
          o_discount_amount = disc, o_final_amount = tot - disc, o_status = ''Pending''\<rparr>]"
    by blast
  from validate_items_total_nonneg [OF v assms(6)] have tot: "0 \<le> tot" .
  from apply_coupon_Inr [OF a] assms(2,3,4) have disc: "disc = coupon_discount tot c"
    by (auto simp: truthy_str_def)
  have "coupon_discount tot c =
      (case discount_percentage c of
         Some p \<Rightarrow> tot * p / 100
       | None \<Rightarrow> (case discount_fixed c of Some f \<Rightarrow> min tot f | None \<Rightarrow> 0))"
    using assms(5) tot
    by (auto simp: coupon_discount_def truthy_dec_def split: option.splits)
  with disc o show ?thesis by (simp split: option.splits)
qed

theorem discount_formula_witness:
  "(\<exists>ord. db_orders (snd (place_order demo_env demo_db (Some 7) [line 1 2, line 2 2]
        (Some ''SAVE10''))) = [ord] \<and>
      o_total_amount ord = 200 \<and> o_discount_amount ord = 20 \<and> o_final_amount ord = 180) \<and>
   (\<exists>ord. db_orders (snd (place_order demo_env demo_db (Some 7) [line 3 1]
        (Some ''FLAT50''))) = [ord] \<and>
      o_total_amount ord = 30 \<and> o_discount_amount ord = 30 \<and> o_final_amount ord = 0)"
proof -
  have f1: "fetch_coupon (db_coupons demo_db) ''SAVE10'' = Some (demo_coupons ! 0)"
    and f2: "fetch_coupon (db_coupons demo_db) ''FLAT50'' = Some (demo_coupons ! 1)"
    by (simp_all add: fetch_coupon_def demo_defs)
  have v1: "coupon_valid (now demo_env) (Some (demo_coupons ! 0))"
    and v2: "coupon_valid (now demo_env) (Some (demo_coupons ! 1))"
    by (simp_all add: coupon_valid_def demo_defs)
  have x1: "discount_percentage (demo_coupons ! 0) = None \<or> discount_fixed (demo_coupons ! 0) = None"
    and x2: "discount_percentage (demo_coupons ! 1) = None \<or> discount_fixed (demo_coupons ! 1) = None"
    by (simp_all add: demo_defs)
  have n: "''SAVE10'' \<noteq> []" "''FLAT50'' \<noteq> []" by simp_all
  show ?thesis
    unfolding demo_save10 demo_flat50 snd_conv
    using discount_formula [OF demo_save10 n(1) f1 v1 x1 demo_prices_nonneg]
      discount_formula [OF demo_flat50 n(2) f2 v2 x2 demo_prices_nonneg]
    by (simp add: demo_db_def demo_coupons_def)
qed

text \<open>
  C4: a supplied non-empty code that names the coupon row \<open>c\<close> (codes are unique) is applied,
  that is, recorded on the order, discounted and counted as a use, exactly when \<open>c\<close> is
  active, not expired (\<open>valid_until\<close> null or later than now) and not exhausted
  (\<open>max_uses\<close> null or above \<open>uses_count\<close>); otherwise the order carries no coupon code
  and no discount and the coupon table is unchanged. In particular a coupon whose
  \<open>uses_count\<close> equals \<open>max_uses\<close> gives no discount and is not incremented.
\<close>

theorem coupon_applied_iff:
  assumes "place_order e d sid items (Some s) = (Inr oid, d')"
    and "s \<noteq> []"
    and "distinct (map c_code (db_coupons d))"
    and "c \<in> set (db_coupons d)"
    and "c_code c = s"
  shows "\<exists>ord. db_orders d' = db_orders d @ [ord] \<and>
      (if is_active c \<and>
          (case valid_until c of None \<Rightarrow> True | Some u \<Rightarrow> now e < u) \<and>
          (case max_uses c of None \<Rightarrow> True | Some n \<Rightarrow> uses_count c < n)
       then o_coupon_code ord = Some s \<and>
            o_discount_amount ord = coupon_discount (o_total_amount ord) c \<and>
            db_coupons d' = increment_uses (c_id c) (db_coupons d)
       else o_coupon_code ord = None \<and> o_discount_amount ord = 0 \<and>
            db_coupons d' = db_coupons d) \<and>
      (max_uses c = Some (uses_count c) \<longrightarrow>
         o_discount_amount ord = 0 \<and> db_coupons d' = db_coupons d)"
proof -
  from place_order_Inr [OF assms(1)] obtain tot data code' disc used where
    a: "apply_coupon e (db_coupons d) (Some s) tot = Inr (code', disc, used)"
    and o: "db_orders d' = db_orders d @
        [\<lparr>o_id = oid, o_student_id = the sid, o_total_amount = tot, o_coupon_code = code',
          o_discount_amount = disc, o_final_amount = tot - disc, o_status = ''Pending''\<rparr>]"
    and u: "db_coupons d' =
        (case used of None \<Rightarrow> db_coupons d | Some cpn \<Rightarrow> increment_uses (c_id cpn) (db_coupons d))"
    by blast
  from fetch_coupon_distinct [OF assms(3,4)] assms(5)
  have f: "fetch_coupon (db_coupons d) s = (if is_active c then Some c else None)"
    by simp
  let ?ok = "is_active c \<and>
          (case valid_until c of None \<Rightarrow> True | Some u \<Rightarrow> now e < u) \<and>
          (case max_uses c of None \<Rightarrow> True | Some n \<Rightarrow> uses_count c < n)"
  have v: "coupon_valid (now e) (fetch_coupon (db_coupons d) s) = ?ok"
    by (simp add: f coupon_valid_def)
  show ?thesis
  proof (cases ?ok)
    case True
    with apply_coupon_Inr [OF a] v f assms(2)
    have "code' = Some s \<and> used = Some c \<and> disc = coupon_discount tot c"
      by (auto simp: truthy_str_def)
    with o u True show ?thesis
      by (auto split: option.splits)
  next
    case False
    with apply_coupon_Inr [OF a] v assms(2)
    have "code' = None \<and> used = None \<and> disc = 0"
      by (auto simp: truthy_str_def)
    with o u False show ?thesis
      by auto
  qed
qed

theorem coupon_applied_iff_witness:
  "(\<exists>ord. [\<lparr>o_id = 1, o_student_id = 7, o_total_amount = 80, o_coupon_code = None,
             o_discount_amount = 0, o_final_amount = 80, o_status = ''Pending''\<rparr>] = [ord] \<and>
      o_coupon_code ord = None \<and> o_discount_amount ord = 0) \<and>
   db_coupons (snd (place_order demo_env demo_db (Some 7) [line 1 2] (Some ''ONCE'')))
     = db_coupons demo_db \<and>
   (\<exists>ord. [\<lparr>o_id = 1, o_student_id = 7, o_total_amount = 200,
             o_coupon_code = Some ''SAVE10'', o_discount_amount = 20, o_final_amount = 180,
             o_status = ''Pending''\<rparr>] = [ord] \<and>
      o_coupon_code ord = Some ''SAVE10'' \<and> o_discount_amount ord = 20) \<and>
   db_coupons (snd (place_order demo_env demo_db (Some 7) [line 1 2, line 2 2] (Some ''SAVE10'')))
     = increment_uses 1 (db_coupons demo_db)"
proof -
  have n: "''ONCE'' \<noteq> []" "''SAVE10'' \<noteq> []" by simp_all
  have m: "demo_coupons ! 3 \<in> set (db_coupons demo_db)"
      "demo_coupons ! 0 \<in> set (db_coupons demo_db)"
    and k: "c_code (demo_coupons ! 3) = ''ONCE''" "c_code (demo_coupons ! 0) = ''SAVE10''"
    by (simp_all add: demo_defs)
  show ?thesis
    unfolding demo_once demo_save10 snd_conv
    using coupon_applied_iff [OF demo_once n(1) demo_codes_distinct m(1) k(1)]
      coupon_applied_iff [OF demo_save10 n(2) demo_codes_distinct m(2) k(2)]
    by (simp add: demo_db_def demo_coupons_def demo_env_def coupon_discount_def truthy_dec_def)
qed

text \<open>
  C5: when the cart passes item validation and no database call fails, a coupon code
  that is unknown, inactive, expired or exhausted is not an error: the order is placed,
  with discount 0 and a final amount equal to the subtotal, and no coupon use is counted.
\<close>

theorem invalid_coupon_degrades:
  assumes "truthy_id sid" "items \<noteq> []" "connect_ok e" "\<forall>st. \<not> raises e st"
    and "\<forall>l\<in>set items.
           (\<exists>r\<in>set (db_menu_items d). mi_id r = menu_item_id l) \<and>
           (\<forall>r\<in>set (db_menu_items d). mi_id r = menu_item_id l \<longrightarrow> mi_is_available r) \<and>
           0 < quantity l"
    and "\<forall>c\<in>set (db_coupons d). c_code c = s \<longrightarrow>
           \<not> is_active c \<or>
           (\<exists>u. valid_until c = Some u \<and> u \<le> now e) \<or>
           (\<exists>n. max_uses c = Some n \<and> n \<le> uses_count c)"
  shows "\<exists>d' ord. place_order e d sid items (Some s) = (Inr (lastrowid e), d') \<and>
      db_orders d' = db_orders d @ [ord] \<and>
      o_discount_amount ord = 0 \<and> o_final_amount ord = o_total_amount ord \<and>
      o_total_amount ord =
        (\<Sum>l\<leftarrow>items. mi_price (the (menu_items_db (db_menu_items d) (menu_item_id l)))
                      * of_int (quantity l)) \<and>
      db_coupons d' = db_coupons d"
proof -
  let ?m = "menu_items_db (db_menu_items d)"
  from validate_items_ok [OF cart_resolves [OF assms(5)], of 0 "[]"]
  obtain tot data where v: "validate_items ?m items 0 [] = Inr (tot, data)"
    and tot: "tot = (\<Sum>l\<leftarrow>items. mi_price (the (?m (menu_item_id l))) * of_int (quantity l))"
    by simp
  from place_order_ok [OF assms(1-4) v]
  have "fst (place_order e d sid items (Some s)) = Inr (lastrowid e)" .
  then obtain d' where p: "place_order e d sid items (Some s) = (Inr (lastrowid e), d')"
    by (cases "place_order e d sid items (Some s)") simp
  from place_order_Inr [OF p] v obtain code' disc used where
    a: "apply_coupon e (db_coupons d) (Some s) tot = Inr (code', disc, used)"
    and o: "db_orders d' = db_orders d @
        [\<lparr>o_id = lastrowid e, o_student_id = the sid, o_total_amount = tot,
          o_coupon_code = code', o_discount_amount = disc, o_final_amount = tot - disc,
          o_status = ''Pending''\<rparr>]"
    and u: "db_coupons d' =
        (case used of None \<Rightarrow> db_coupons d | Some cpn \<Rightarrow> increment_uses (c_id cpn) (db_coupons d))"
    by auto
  have nv: "\<not> coupon_valid (now e) (fetch_coupon (db_coupons d) s)"
  proof (cases "fetch_coupon (db_coupons d) s")
    case None
    then show ?thesis by (simp add: coupon_valid_def)
  next
    case (Some c)
    from fetch_coupon_SomeD [OF Some] assms(6)
    have "(\<exists>u. valid_until c = Some u \<and> u \<le> now e) \<or>
          (\<exists>n. max_uses c = Some n \<and> n \<le> uses_count c)"
      by blast
    with Some show ?thesis by (auto simp: coupon_valid_def)
  qed
  with apply_coupon_Inr [OF a] have "disc = 0 \<and> used = None"
    by auto
  with p o u tot show ?thesis by simp
qed

theorem invalid_coupon_degrades_witness:
  "\<exists>d' ord. place_order demo_env demo_db (Some 7) [line 1 2] (Some ''OLD20'') = (Inr 1, d') \<and>
      db_orders d' = [ord] \<and> o_discount_amount ord = 0 \<and>
      o_final_amount ord = o_total_amount ord \<and> o_total_amount ord = 80 \<and>
      db_coupons d' = db_coupons demo_db"
proof -
  have h: "truthy_id (Some 7)" "[line 1 2] \<noteq> []" "connect_ok demo_env"
      "\<forall>st. \<not> raises demo_env st"
    by (simp_all add: truthy_id_def demo_env_def)
  have cart: "\<forall>l\<in>set [line 1 2].
           (\<exists>r\<in>set (db_menu_items demo_db). mi_id r = menu_item_id l) \<and>
           (\<forall>r\<in>set (db_menu_items demo_db). mi_id r = menu_item_id l \<longrightarrow> mi_is_available r) \<and>
           0 < quantity l"
    by (simp add: demo_defs)
  have cpn: "\<forall>c\<in>set (db_coupons demo_db). c_code c = ''OLD20'' \<longrightarrow>
           \<not> is_active c \<or>
           (\<exists>u. valid_until c = Some u \<and> u \<le> now demo_env) \<or>
           (\<exists>n. max_uses c = Some n \<and> n \<le> uses_count c)"
    by (simp add: demo_defs)
  from invalid_coupon_degrades [OF h cart cpn] obtain d' ord where
    r: "place_order demo_env demo_db (Some 7) [line 1 2] (Some ''OLD20'') =
          (Inr (lastrowid demo_env), d')"
      "db_orders d' = db_orders demo_db @ [ord]"
      "o_discount_amount ord = 0" "o_final_amount ord = o_total_amount ord"
      "o_total_amount ord =
        (\<Sum>l\<leftarrow>[line 1 2].
            mi_price (the (menu_items_db (db_menu_items demo_db) (menu_item_id l)))
              * of_int (quantity l))"
      "db_coupons d' = db_coupons demo_db"
    by blast
  have v: "lastrowid demo_env = 1" "db_orders demo_db = []"
      "(\<Sum>l\<leftarrow>[line 1 2].
            mi_price (the (menu_items_db (db_menu_items demo_db) (menu_item_id l)))
              * of_int (quantity l)) = 80"
    by (simp_all add: demo_defs menu_items_db_def)
  from r(1,2,5) have "place_order demo_env demo_db (Some 7) [line 1 2] (Some ''OLD20'') = (Inr 1, d')"
      "db_orders d' = [ord]" "o_total_amount ord = 80"
    unfolding v by simp_all
  with r(3,4,6) show ?thesis by blast
qed

text \<open>
  C10, as amended: a non-empty code that is unknown or invalid leaves the order's
  \<open>coupon_code\<close> null, and a non-null, non-empty \<open>coupon_code\<close> on a placed order is the
  submitted code of an active, valid coupon whose discount was computed and whose use was
  counted. An empty-string code skips the coupon step and is stored as submitted (an empty
  string, not null), with discount 0; the counterexample is such an order.
\<close>

theorem coupon_code_snapshot:
  assumes "place_order e d sid items code = (Inr oid, d')"
  shows "\<exists>ord. db_orders d' = db_orders d @ [ord] \<and>
      (\<forall>s. o_coupon_code ord = Some s \<and> s \<noteq> [] \<longrightarrow>
         code = Some s \<and>
         (\<exists>c\<in>set (db_coupons d). c_code c = s \<and> is_active c \<and>
            coupon_valid (now e) (Some c) \<and>
            o_discount_amount ord = coupon_discount (o_total_amount ord) c \<and>
            db_coupons d' = increment_uses (c_id c) (db_coupons d))) \<and>
      (\<forall>s. code = Some s \<and> s \<noteq> [] \<and>
           (\<forall>c\<in>set (db_coupons d). c_code c = s \<longrightarrow>
              \<not> is_active c \<or>
              (\<exists>u. valid_until c = Some u \<and> u \<le> now e) \<or>
              (\<exists>n. max_uses c = Some n \<and> n \<le> uses_count c)) \<longrightarrow>
         o_coupon_code ord = None) \<and>
      (code = Some [] \<longrightarrow>
         o_coupon_code ord = Some [] \<and> o_discount_amount ord = 0 \<and>
         db_coupons d' = db_coupons d) \<and>
      (code = None \<longrightarrow> o_coupon_code ord = None)"
proof -
  from place_order_Inr [OF assms] obtain tot data code' disc used where
    a: "apply_coupon e (db_coupons d) code tot = Inr (code', disc, used)"
    and o: "db_orders d' = db_orders d @
        [\<lparr>o_id = oid, o_student_id = the sid, o_total_amount = tot, o_coupon_code = code',
          o_discount_amount = disc, o_final_amount = tot - disc, o_status = ''Pending''\<rparr>]"
    and u: "db_coupons d' =
        (case used of None \<Rightarrow> db_coupons d | Some cpn \<Rightarrow> increment_uses (c_id cpn) (db_coupons d))"
    by blast
  note ac = apply_coupon_Inr [OF a]
  have p1: "code = Some s \<and>
         (\<exists>c\<in>set (db_coupons d). c_code c = s \<and> is_active c \<and>
            coupon_valid (now e) (Some c) \<and> disc = coupon_discount tot c \<and>
            db_coupons d' = increment_uses (c_id c) (db_coupons d))"
    if "code' = Some s" "s \<noteq> []" for s
  proof -
    from ac that have t: "truthy_str code" and c: "code = Some s"
      and v: "coupon_valid (now e) (fetch_coupon (db_coupons d) s)"
      and us: "used = fetch_coupon (db_coupons d) s"
      and di: "disc = coupon_discount tot (the (fetch_coupon (db_coupons d) s))"
      by (auto simp: truthy_str_def)
    from v obtain c where f: "fetch_coupon (db_coupons d) s = Some c"
      using coupon_valid_SomeD by blast
    from fetch_coupon_SomeD [OF f] v f us di u c show ?thesis
      by auto
  qed
  have p2: "code' = None"
    if "code = Some s" "s \<noteq> []"
      "\<forall>c\<in>set (db_coupons d). c_code c = s \<longrightarrow>
              \<not> is_active c \<or>
              (\<exists>u. valid_until c = Some u \<and> u \<le> now e) \<or>
              (\<exists>n. max_uses c = Some n \<and> n \<le> uses_count c)" for s
    using ac that(1,2) no_valid_coupon [OF that(3)] by (auto simp: truthy_str_def)
  have p3: "code' = Some [] \<and> disc = 0 \<and> db_coupons d' = db_coupons d" if "code = Some []"
    using ac that u by (auto simp: truthy_str_def)
  have p4: "code' = None" if "code = None"
    using ac that by (auto simp: truthy_str_def)
  let ?ord = "\<lparr>o_id = oid, o_student_id = the sid, o_total_amount = tot,
      o_coupon_code = code', o_discount_amount = disc, o_final_amount = tot - disc,
      o_status = ''Pending''\<rparr>"
  have q1: "\<forall>s. o_coupon_code ?ord = Some s \<and> s \<noteq> [] \<longrightarrow>
         code = Some s \<and>
         (\<exists>c\<in>set (db_coupons d). c_code c = s \<and> is_active c \<and>
            coupon_valid (now e) (Some c) \<and>
            o_discount_amount ?ord = coupon_discount (o_total_amount ?ord) c \<and>
            db_coupons d' = increment_uses (c_id c) (db_coupons d))"
  proof (intro allI impI)
    fix s assume "o_coupon_code ?ord = Some s \<and> s \<noteq> []"
    then have "code' = Some s" "s \<noteq> []" by simp_all
    from p1 [OF this] show "code = Some s \<and>
         (\<exists>c\<in>set (db_coupons d). c_code c = s \<and> is_active c \<and>
            coupon_valid (now e) (Some c) \<and>
            o_discount_amount ?ord = coupon_discount (o_total_amount ?ord) c \<and>
            db_coupons d' = increment_uses (c_id c) (db_coupons d))"
      by simp
  qed
  have q2: "\<forall>s. code = Some s \<and> s \<noteq> [] \<and>
           (\<forall>c\<in>set (db_coupons d). c_code c = s \<longrightarrow>
              \<not> is_active c \<or>
              (\<exists>u. valid_until c = Some u \<and> u \<le> now e) \<or>
              (\<exists>n. max_uses c = Some n \<and> n \<le> uses_count c)) \<longrightarrow>
         o_coupon_code ?ord = None"
  proof (intro allI impI)
    fix s assume h: "code = Some s \<and> s \<noteq> [] \<and>
           (\<forall>c\<in>set (db_coupons d). c_code c = s \<longrightarrow>
              \<not> is_active c \<or>
              (\<exists>u. valid_until c = Some u \<and> u \<le> now e) \<or>
              (\<exists>n. max_uses c = Some n \<and> n \<le> uses_count c))"
    then have "code' = None" by (intro p2 [of s]) blast+
    then show "o_coupon_code ?ord = None" by simp
  qed
  have q3: "code = Some [] \<longrightarrow>
         o_coupon_code ?ord = Some [] \<and> o_discount_amount ?ord = 0 \<and>
         db_coupons d' = db_coupons d"
    using p3 by simp
  have q4: "code = None \<longrightarrow> o_coupon_code ?ord = None"
    using p4 by simp
  from o q1 q2 q3 q4 show ?thesis
    by (intro exI [of _ ?ord] conjI)
qed

theorem coupon_code_snapshot_witness:
  "\<exists>ord. [\<lparr>o_id = 1, o_student_id = 7, o_total_amount = 80, o_coupon_code = None,
             o_discount_amount = 0, o_final_amount = 80, o_status = ''Pending''\<rparr>] = [ord] \<and>
      o_coupon_code ord = None"
proof -
  have "(''ONCE'' \<noteq> [] \<and>
           (\<forall>c\<in>set (db_coupons demo_db). c_code c = ''ONCE'' \<longrightarrow>
              \<not> is_active c \<or>
              (\<exists>u. valid_until c = Some u \<and> u \<le> now demo_env) \<or>
              (\<exists>n. max_uses c = Some n \<and> n \<le> uses_count c)))"
    by (simp add: demo_defs)
  with coupon_code_snapshot [OF demo_once] show ?thesis
    by (simp add: demo_db_def)
qed

theorem coupon_code_snapshot_counterexample:
  "place_order demo_env demo_db (Some 7) [line 1 2] (Some '''') =
    (Inr 1, demo_db\<lparr>
      db_orders := [\<lparr>o_id = 1, o_student_id = 7, o_total_amount = 80,
        o_coupon_code = Some '''', o_discount_amount = 0, o_final_amount = 80,
        o_status = ''Pending''\<rparr>],
      db_order_items := [
        \<lparr>oi_order_id = 1, oi_menu_item_id = 1, oi_quantity = 2, oi_price_at_order = 40\<rparr>]\<rparr>) \<and>
   Some '''' \<noteq> (None :: string option) \<and>
   fetch_coupon (db_coupons demo_db) '''' = None"
  using demo_empty_code by (simp add: fetch_coupon_def demo_defs)

text \<open>
  C7, as amended: a cart with a line whose id is absent from the catalogue, or whose
  resolved item is unavailable, always fails and leaves the database as it was (no order,
  no order line, no coupon use). Which error is reported is decided by the first failing
  check in cart order: when the lines before it pass lookup, availability and quantity and
  the item query does not fail, an absent id gives \<open>ItemNotFound\<close> naming the id and an
  unavailable item gives \<open>ItemUnavailable\<close> naming the item. The counterexample is a cart
  with an unavailable item before an unknown id: the response is \<open>ItemUnavailable\<close>.
\<close>

theorem item_errors:
  "((\<exists>l\<in>set items.
        (\<forall>r\<in>set (db_menu_items d). mi_id r \<noteq> menu_item_id l) \<or>
        (\<exists>r. menu_items_db (db_menu_items d) (menu_item_id l) = Some r \<and> \<not> mi_is_available r))
      \<longrightarrow> (\<exists>err. place_order e d sid items code = (Inl err, d))) \<and>
   (truthy_id sid \<and> connect_ok e \<and> \<not> raises e SelectMenuItems \<and>
    (\<forall>l'\<in>set pre. \<exists>r. menu_items_db (db_menu_items d) (menu_item_id l') = Some r \<and>
        mi_is_available r \<and> 0 < quantity l')
      \<longrightarrow>
      ((\<forall>r\<in>set (db_menu_items d). mi_id r \<noteq> menu_item_id l) \<longrightarrow>
         place_order e d sid (pre @ l # post) code = (Inl (ItemNotFound (menu_item_id l)), d)) \<and>
      (\<forall>r. menu_items_db (db_menu_items d) (menu_item_id l) = Some r \<and> \<not> mi_is_available r \<longrightarrow>
         place_order e d sid (pre @ l # post) code = (Inl (ItemUnavailable (mi_name r)), d)))"
proof (intro conjI impI)
  assume "\<exists>l\<in>set items.
        (\<forall>r\<in>set (db_menu_items d). mi_id r \<noteq> menu_item_id l) \<or>
        (\<exists>r. menu_items_db (db_menu_items d) (menu_item_id l) = Some r \<and> \<not> mi_is_available r)"
  then obtain l where l: "l \<in> set items"
    and bad: "menu_items_db (db_menu_items d) (menu_item_id l) = None \<or>
        (\<exists>r. menu_items_db (db_menu_items d) (menu_item_id l) = Some r \<and> \<not> mi_is_available r)"
    by (auto simp: menu_items_db_None_iff)
  from bad have "\<not> (\<exists>r. menu_items_db (db_menu_items d) (menu_item_id l) = Some r \<and>
      mi_is_available r \<and> 0 < quantity l)"
    by auto
  with l have "\<exists>l\<in>set items. \<not> (\<exists>r. menu_items_db (db_menu_items d) (menu_item_id l) = Some r \<and>
      mi_is_available r \<and> 0 < quantity l)"
    by blast
  then show "\<exists>err. place_order e d sid items code = (Inl err, d)"
    by (rule place_order_fails_unchanged)
next
  assume h: "truthy_id sid \<and> connect_ok e \<and> \<not> raises e SelectMenuItems \<and>
    (\<forall>l'\<in>set pre. \<exists>r. menu_items_db (db_menu_items d) (menu_item_id l') = Some r \<and>
        mi_is_available r \<and> 0 < quantity l')"
  then have pre: "\<forall>l'\<in>set pre. \<exists>r. menu_items_db (db_menu_items d) (menu_item_id l') = Some r \<and>
        mi_is_available r \<and> 0 < quantity l'" by blast
  note ff = validate_items_first_failure [OF pre, of l post]
  {
    assume "\<forall>r\<in>set (db_menu_items d). mi_id r \<noteq> menu_item_id l"
    then have "menu_items_db (db_menu_items d) (menu_item_id l) = None"
      by (simp add: menu_items_db_None_iff)
    with ff have "validate_items (menu_items_db (db_menu_items d)) (pre @ l # post) 0 [] =
        Inl (ItemNotFound (menu_item_id l))" by simp
    with h show "place_order e d sid (pre @ l # post) code = (Inl (ItemNotFound (menu_item_id l)), d)"
      by (intro place_order_validation_error) auto
  }
  show "\<forall>r. menu_items_db (db_menu_items d) (menu_item_id l) = Some r \<and> \<not> mi_is_available r \<longrightarrow>
         place_order e d sid (pre @ l # post) code = (Inl (ItemUnavailable (mi_name r)), d)"
  proof (intro allI impI)
    fix r assume "menu_items_db (db_menu_items d) (menu_item_id l) = Some r \<and> \<not> mi_is_available r"
    with ff have "validate_items (menu_items_db (db_menu_items d)) (pre @ l # post) 0 [] =
        Inl (ItemUnavailable (mi_name r))" by simp
    with h show "place_order e d sid (pre @ l # post) code = (Inl (ItemUnavailable (mi_name r)), d)"
      by (intro place_order_validation_error) auto
  qed
qed

theorem item_errors_witness:
  "place_order demo_env demo_db (Some 7) ([line 1 2] @ line 99 1 # []) (Some ''SAVE10'') =
     (Inl (ItemNotFound 99), demo_db) \<and>
   place_order demo_env demo_db (Some 7) ([] @ line 4 1 # [line 99 1]) None =
     (Inl (ItemUnavailable ''Lassi''), demo_db)"
proof -
  have h: "truthy_id (Some 7) \<and> connect_ok demo_env \<and> \<not> raises demo_env SelectMenuItems"
    by (simp add: truthy_id_def demo_env_def)
  have p1: "\<forall>l'\<in>set [line 1 2]. \<exists>r. menu_items_db (db_menu_items demo_db) (menu_item_id l') = Some r \<and>
        mi_is_available r \<and> 0 < quantity l'"
    and p0: "\<forall>l'\<in>set []. \<exists>r. menu_items_db (db_menu_items demo_db) (menu_item_id l') = Some r \<and>
        mi_is_available r \<and> 0 < quantity l'"
    by (simp_all add: demo_defs menu_items_db_def)
  have a: "\<forall>r\<in>set (db_menu_items demo_db). mi_id r \<noteq> menu_item_id (line 99 1)"
    and u: "menu_items_db (db_menu_items demo_db) (menu_item_id (line 4 1)) = Some (demo_menu ! 3) \<and>
        \<not> mi_is_available (demo_menu ! 3)"
    and nm: "mi_name (demo_menu ! 3) = ''Lassi''" "menu_item_id (line 99 1) = 99"
    by (simp_all add: demo_defs menu_items_db_def)
  from item_errors [where items = "[]" and e = demo_env and d = demo_db and sid = "Some 7"
      and code = "Some ''SAVE10''" and pre = "[line 1 2]" and l = "line 99 1" and post = "[]"]
    h p1 a
  have "place_order demo_env demo_db (Some 7) ([line 1 2] @ line 99 1 # []) (Some ''SAVE10'') =
     (Inl (ItemNotFound (menu_item_id (line 99 1))), demo_db)"
    by blast
  moreover
  from item_errors [where items = "[]" and e = demo_env and d = demo_db and sid = "Some 7"
      and code = None and pre = "[]" and l = "line 4 1" and post = "[line 99 1]"]
    h p0 u
  have "place_order demo_env demo_db (Some 7) ([] @ line 4 1 # [line 99 1]) None =
     (Inl (ItemUnavailable (mi_name (demo_menu ! 3))), demo_db)"
    by blast
  ultimately show ?thesis
    unfolding nm by blast
qed

theorem item_errors_counterexample:
  "place_order demo_env demo_db (Some 7) [line 4 1, line 99 1] None =
     (Inl (ItemUnavailable ''Lassi''), demo_db) \<and>
   menu_item_id (line 99 1) = 99 \<and>
   99 \<notin> set (map mi_id (db_menu_items demo_db)) \<and>
   ItemUnavailable ''Lassi'' \<noteq> ItemNotFound 99"
  using demo_unavailable_first by (simp add: demo_defs)

text \<open>
  C8, as amended: a cart with a line of quantity zero or less always fails and leaves
  the database as it was. The quantity of a line is checked after the lookup and the
  availability of that same line, lines in cart order: when the lines before it pass all
  checks and the item query does not fail, such a line gives \<open>InvalidQuantity\<close> naming
  its item id if it resolves to an available item, \<open>ItemNotFound\<close> if its id is unknown
  and \<open>ItemUnavailable\<close> if its item is unavailable. The counterexample is the cart of
  one line with an unknown id and quantity 0: the response is \<open>ItemNotFound\<close>.
\<close>

theorem quantity_errors:
  "((\<exists>l\<in>set items. quantity l \<le> 0)
      \<longrightarrow> (\<exists>err. place_order e d sid items code = (Inl err, d))) \<and>
   (truthy_id sid \<and> connect_ok e \<and> \<not> raises e SelectMenuItems \<and>
    (\<forall>l'\<in>set pre. \<exists>r. menu_items_db (db_menu_items d) (menu_item_id l') = Some r \<and>
        mi_is_available r \<and> 0 < quantity l') \<and>
    quantity l \<le> 0
      \<longrightarrow>
      place_order e d sid (pre @ l # post) code =
        (case menu_items_db (db_menu_items d) (menu_item_id l) of
           None \<Rightarrow> (Inl (ItemNotFound (menu_item_id l)), d)
         | Some r \<Rightarrow>
             if mi_is_available r then (Inl (InvalidQuantity (menu_item_id l)), d)
             else (Inl (ItemUnavailable (mi_name r)), d)))"
proof (intro conjI impI)
  assume "\<exists>l\<in>set items. quantity l \<le> 0"
  then obtain l where l: "l \<in> set items" and q: "quantity l \<le> 0" by blast
  from q have "\<not> (\<exists>r. menu_items_db (db_menu_items d) (menu_item_id l) = Some r \<and>
      mi_is_available r \<and> 0 < quantity l)"
    by auto
  with l have "\<exists>l\<in>set items. \<not> (\<exists>r. menu_items_db (db_menu_items d) (menu_item_id l) = Some r \<and>
      mi_is_available r \<and> 0 < quantity l)"
    by blast
  then show "\<exists>err. place_order e d sid items code = (Inl err, d)"
    by (rule place_order_fails_unchanged)
next
  assume h: "truthy_id sid \<and> connect_ok e \<and> \<not> raises e SelectMenuItems \<and>
    (\<forall>l'\<in>set pre. \<exists>r. menu_items_db (db_menu_items d) (menu_item_id l') = Some r \<and>
        mi_is_available r \<and> 0 < quantity l') \<and>
    quantity l \<le> 0"
  then have pre: "\<forall>l'\<in>set pre. \<exists>r. menu_items_db (db_menu_items d) (menu_item_id l') = Some r \<and>
        mi_is_available r \<and> 0 < quantity l'" by blast
  let ?err = "case menu_items_db (db_menu_items d) (menu_item_id l) of
           None \<Rightarrow> ItemNotFound (menu_item_id l)
         | Some r \<Rightarrow>
             if mi_is_available r then InvalidQuantity (menu_item_id l)
             else ItemUnavailable (mi_name r)"
  from validate_items_first_failure [OF pre, of l post] h
  have "validate_items (menu_items_db (db_menu_items d)) (pre @ l # post) 0 [] = Inl ?err"
    by (simp split: option.splits)
  with h have "place_order e d sid (pre @ l # post) code = (Inl ?err, d)"
    by (intro place_order_validation_error) auto
  then show "place_order e d sid (pre @ l # post) code =
        (case menu_items_db (db_menu_items d) (menu_item_id l) of
           None \<Rightarrow> (Inl (ItemNotFound (menu_item_id l)), d)
         | Some r \<Rightarrow>
             if mi_is_available r then (Inl (InvalidQuantity (menu_item_id l)), d)
             else (Inl (ItemUnavailable (mi_name r)), d))"
    by (simp split: option.splits)
qed

theorem quantity_errors_witness:
  "place_order demo_env demo_db (Some 7) ([line 1 2] @ line 2 0 # [line 99 1]) None =
     (Inl (InvalidQuantity 2), demo_db)"
proof -
  have h: "truthy_id (Some 7) \<and> connect_ok demo_env \<and> \<not> raises demo_env SelectMenuItems"
    by (simp add: truthy_id_def demo_env_def)
  have p1: "\<forall>l'\<in>set [line 1 2]. \<exists>r. menu_items_db (db_menu_items demo_db) (menu_item_id l') = Some r \<and>
        mi_is_available r \<and> 0 < quantity l'"
    by (simp add: demo_defs menu_items_db_def)
  have q: "quantity (line 2 0) \<le> 0" by (simp add: line_def)
  have r: "(case menu_items_db (db_menu_items demo_db) (menu_item_id (line 2 0)) of
           None \<Rightarrow> (Inl (ItemNotFound (menu_item_id (line 2 0))), demo_db)
         | Some r \<Rightarrow>
             if mi_is_available r then (Inl (InvalidQuantity (menu_item_id (line 2 0))), demo_db)
             else (Inl (ItemUnavailable (mi_name r)), demo_db)) =
        (Inl (InvalidQuantity 2) :: error + int, demo_db)"
    by (simp add: demo_defs menu_items_db_def)
  from quantity_errors [where items = "[]" and e = demo_env and d = demo_db and sid = "Some 7"
      and code = None and pre = "[line 1 2]" and l = "line 2 0" and post = "[line 99 1]"]
    h p1 q
  have "place_order demo_env demo_db (Some 7) ([line 1 2] @ line 2 0 # [line 99 1]) None =
        (case menu_items_db (db_menu_items demo_db) (menu_item_id (line 2 0)) of
           None \<Rightarrow> (Inl (ItemNotFound (menu_item_id (line 2 0))), demo_db)
         | Some r \<Rightarrow>
             if mi_is_available r then (Inl (InvalidQuantity (menu_item_id (line 2 0))), demo_db)
             else (Inl (ItemUnavailable (mi_name r)), demo_db))"
    by blast
  then show ?thesis unfolding r .
qed

theorem quantity_errors_counterexample:
  "place_order demo_env demo_db (Some 7) [line 99 0] None = (Inl (ItemNotFound 99), demo_db) \<and>
   quantity (line 99 0) \<le> 0 \<and>
   ItemNotFound 99 \<noteq> InvalidQuantity 99"
  using demo_unknown_zero by (simp add: line_def)

text \<open>
  C2: the write set is atomic. Whatever database call raises and whatever check fails, an
  error response leaves the committed database equal to the one before the request; a
  success adds exactly one order with the returned id, one order line per cart line, all
  with that id, and leaves the menu as it was. When a valid coupon was applied, the coupon
  table after the request is the table before it with \<open>uses_count\<close> raised by exactly 1 on
  the rows carrying the id of that coupon and every other row and field as it was;
  otherwise the coupon table is unchanged.
\<close>

theorem place_order_atomic:
  "(place_order e d sid items code = (Inl err, d1) \<longrightarrow> d1 = d) \<and>
   (place_order e d sid items code = (Inr oid, d2) \<longrightarrow>
      (\<exists>ord rows.
          db_orders d2 = db_orders d @ [ord] \<and> o_id ord = oid \<and>
          db_order_items d2 = db_order_items d @ rows \<and>
          length rows = length items \<and> (\<forall>r\<in>set rows. oi_order_id r = oid) \<and>
          db_menu_items d2 = db_menu_items d \<and>
          (if truthy_str code \<and> coupon_valid (now e) (fetch_coupon (db_coupons d) (the code))
           then (\<exists>c. fetch_coupon (db_coupons d) (the code) = Some c \<and>
                   c \<in> set (db_coupons d) \<and>
                   db_coupons d2 =
                     map (\<lambda>r. if c_id r = c_id c then r\<lparr>uses_count := uses_count r + 1\<rparr> else r)
                       (db_coupons d) \<and>
                   map uses_count (db_coupons d2) =
                     map (\<lambda>r. if c_id r = c_id c then uses_count r + 1 else uses_count r)
                       (db_coupons d))
           else db_coupons d2 = db_coupons d)))"
proof (intro conjI impI)
  assume "place_order e d sid items code = (Inl err, d1)"
  then show "d1 = d" by (rule place_order_Inl)
next
  assume "place_order e d sid items code = (Inr oid, d2)"
  from place_order_Inr [OF this] obtain tot data code' disc used where
    v: "validate_items (menu_items_db (db_menu_items d)) items 0 [] = Inr (tot, data)"
    and a: "apply_coupon e (db_coupons d) code tot = Inr (code', disc, used)"
    and m: "db_menu_items d2 = db_menu_items d"
    and o: "db_orders d2 = db_orders d @
        [\<lparr>o_id = oid, o_student_id = the sid, o_total_amount = tot, o_coupon_code = code',
          o_discount_amount = disc, o_final_amount = tot - disc, o_status = ''Pending''\<rparr>]"
    and i: "db_order_items d2 = db_order_items d @ order_items_values oid data"
    and u: "db_coupons d2 =
        (case used of None \<Rightarrow> db_coupons d | Some cpn \<Rightarrow> increment_uses (c_id cpn) (db_coupons d))"
    by blast
  from validate_items_Inr [OF v] have "length data = length items" by simp
  then have len: "length (order_items_values oid data) = length items"
    and ids: "\<forall>r\<in>set (order_items_values oid data). oi_order_id r = oid"
    by (auto simp: order_items_values_def)
  let ?applied = "truthy_str code \<and>
      coupon_valid (now e) (fetch_coupon (db_coupons d) (the code))"
  let ?coupons = "if ?applied
           then (\<exists>c. fetch_coupon (db_coupons d) (the code) = Some c \<and>
                   c \<in> set (db_coupons d) \<and>
                   db_coupons d2 =
                     map (\<lambda>r. if c_id r = c_id c then r\<lparr>uses_count := uses_count r + 1\<rparr> else r)
                       (db_coupons d) \<and>
                   map uses_count (db_coupons d2) =
                     map (\<lambda>r. if c_id r = c_id c then uses_count r + 1 else uses_count r)
                       (db_coupons d))
           else db_coupons d2 = db_coupons d"
  have c: ?coupons
  proof (cases ?applied)
    case True
    with apply_coupon_Inr [OF a] have us: "used = fetch_coupon (db_coupons d) (the code)"
      by auto
    from True obtain cpn where f: "fetch_coupon (db_coupons d) (the code) = Some cpn"
      using coupon_valid_SomeD by blast
    from fetch_coupon_SomeD [OF f] have mem: "cpn \<in> set (db_coupons d)" by simp
    from us u f have eq: "db_coupons d2 =
        map (\<lambda>r. if c_id r = c_id cpn then r\<lparr>uses_count := uses_count r + 1\<rparr> else r)
          (db_coupons d)"
      by (simp add: increment_uses_def)
    have "map uses_count (map (\<lambda>r. if c_id r = c_id cpn then r\<lparr>uses_count := uses_count r + 1\<rparr> else r)
          (db_coupons d)) =
        map (\<lambda>r. if c_id r = c_id cpn then uses_count r + 1 else uses_count r) (db_coupons d)"
      by (induction "db_coupons d") auto
    with eq have "map uses_count (db_coupons d2) =
        map (\<lambda>r. if c_id r = c_id cpn then uses_count r + 1 else uses_count r) (db_coupons d)"
      by simp
    with f mem eq True show ?thesis by auto
  next
    case False
    with apply_coupon_Inr [OF a] have "used = None" by auto
    with u have "db_coupons d2 = db_coupons d" by simp
    with False show ?thesis by auto
  qed
  let ?ord = "\<lparr>o_id = oid, o_student_id = the sid, o_total_amount = tot, o_coupon_code = code',
          o_discount_amount = disc, o_final_amount = tot - disc, o_status = ''Pending''\<rparr>"
  have "db_orders d2 = db_orders d @ [?ord] \<and> o_id ?ord = oid \<and>
          db_order_items d2 = db_order_items d @ order_items_values oid data \<and>
          length (order_items_values oid data) = length items \<and>
          (\<forall>r\<in>set (order_items_values oid data). oi_order_id r = oid) \<and>
          db_menu_items d2 = db_menu_items d \<and> ?coupons"
    using o i len ids m c by simp
  then show "\<exists>ord rows.
          db_orders d2 = db_orders d @ [ord] \<and> o_id ord = oid \<and>
          db_order_items d2 = db_order_items d @ rows \<and>
          length rows = length items \<and> (\<forall>r\<in>set rows. oi_order_id r = oid) \<and>
          db_menu_items d2 = db_menu_items d \<and> ?coupons"
    by blast
qed

theorem place_order_atomic_witness:
  "snd (place_order (demo_env\<lparr>raises := (\<lambda>st. st = Commit)\<rparr>) demo_db (Some 7)
      [line 1 2, line 2 2] (Some ''SAVE10'')) = demo_db \<and>
   (\<exists>ord rows.
      db_orders (snd (place_order demo_env demo_db (Some 7) [line 1 2, line 2 2]
        (Some ''SAVE10''))) = [ord] \<and> o_id ord = 1 \<and>
      db_order_items (snd (place_order demo_env demo_db (Some 7) [line 1 2, line 2 2]
        (Some ''SAVE10''))) = rows \<and> length rows = 2) \<and>
   map uses_count (db_coupons demo_db) = [0, 3, 0, 1] \<and>
   map uses_count (db_coupons (snd (place_order demo_env demo_db (Some 7) [line 1 2, line 2 2]
        (Some ''SAVE10'')))) = [1, 3, 0, 1]"
proof -
  let ?E = "demo_env\<lparr>raises := (\<lambda>st. st = Commit)\<rparr>"
  let ?F = "place_order ?E demo_db (Some 7) [line 1 2, line 2 2] (Some ''SAVE10'')"
  let ?P = "place_order demo_env demo_db (Some 7) [line 1 2, line 2 2] (Some ''SAVE10'')"
  have f: "?F = (Inl FailedToPlaceOrder, snd ?F)"
    by (simp add: demo_commit_fails)
  have p: "?P = (Inr 1, snd ?P)"
    by (simp add: demo_save10)
  from place_order_atomic [where e = ?E and d = demo_db and sid = "Some 7"
      and items = "[line 1 2, line 2 2]" and code = "Some ''SAVE10''"
      and err = FailedToPlaceOrder and ?d1.0 = "snd ?F" and oid = 1 and ?d2.0 = demo_db] f
  have a: "snd ?F = demo_db" by blast
  have v: "truthy_str (Some ''SAVE10'') \<and>
          coupon_valid (now demo_env) (fetch_coupon (db_coupons demo_db) (the (Some ''SAVE10'')))"
    by (simp add: truthy_str_def coupon_valid_def fetch_coupon_def demo_defs)
  from place_order_atomic [where e = demo_env and d = demo_db and sid = "Some 7"
      and items = "[line 1 2, line 2 2]" and code = "Some ''SAVE10''"
      and err = FailedToPlaceOrder and ?d1.0 = demo_db and oid = 1 and ?d2.0 = "snd ?P"] p v
  obtain ord rows c where r: "db_orders (snd ?P) = db_orders demo_db @ [ord]" "o_id ord = 1"
      "db_order_items (snd ?P) = db_order_items demo_db @ rows"
      "length rows = length [line 1 2, line 2 2]"
      "fetch_coupon (db_coupons demo_db) (the (Some ''SAVE10'')) = Some c"
      "map uses_count (db_coupons (snd ?P)) =
         map (\<lambda>r. if c_id r = c_id c then uses_count r + 1 else uses_count r)
           (db_coupons demo_db)"
    by auto
  have w: "db_orders demo_db = []" "db_order_items demo_db = []"
      "map uses_count (db_coupons demo_db) = [0, 3, 0, 1]"
    by (simp_all add: demo_defs)
  from r(5) have "c_id c = 1"
    by (auto simp: fetch_coupon_def demo_defs)
  with r(6) have u: "map uses_count (db_coupons (snd ?P)) = [1, 3, 0, 1]"
    by (simp add: demo_defs)
  from r(1,3,4) have "db_orders (snd ?P) = [ord]" "db_order_items (snd ?P) = rows"
      "length rows = 2"
    unfolding w(1,2) by simp_all
  with r(2) u a w(3) show ?thesis by blast
qed

end
